theory Spec2Isabelle
  imports Complex_Main
begin

section \<open>The meditation timer engine (src/hooks/useTimer.ts)\<close>

text \<open>
  The hook \<open>useTimer\<close> keeps three React state cells (\<open>state\<close>, \<open>totalDuration\<close>,
  \<open>remainingTime\<close>) and three refs (\<open>intervalRef\<close>, \<open>startTimeRef\<close>, \<open>pausedTimeRef\<close>).
  The model is explicit state passing over a record of these six cells, extended by the part
  of the JavaScript runtime the hook talks to: the \<open>setInterval\<close> timers that are still
  scheduled, the pending \<open>setTimeout\<close> callbacks of the auto-reset, and a log of the
  callback invocations.

  Numbers are modelled as integers: seconds, milliseconds and minutes are integer-valued
  in every caller, and \<open>Date.now()\<close> is an integer number of milliseconds. The reading of the
  clock is an argument of each operation that reads it. Each operation is applied to the
  state as rendered, i.e. the callbacks are the ones of the latest render.
\<close>

subsection \<open>Data model (src/types/timer.ts)\<close>

datatype TimerState = READY | RUNNING | PAUSED | COMPLETED

text \<open>
  \<open>TimerConfig\<close>: the two optional callbacks are represented by whether they are configured;
  their invocations are logged in the engine record below.
\<close>

record TimerConfig =
  initialMinutes :: int
  autoReset :: bool
  onComplete :: bool
  onTick :: bool

record TimerDisplay =
  formatted :: string
  minutes :: int
  seconds :: int
  totalSeconds :: int
  progress :: real

text \<open>
  A scheduled \<open>setInterval\<close> timer is its handle together with the value of \<open>totalDuration\<close>
  that the callback's closure captured when \<open>start\<close> created it. A pending auto-reset
  \<open>setTimeout\<close> is the captured \<open>totalDuration\<close> of the closure that scheduled it.
\<close>

record engine =
  state :: TimerState
  totalDuration :: int
  remainingTime :: int
  intervalRef :: "nat option"
  startTimeRef :: int
  pausedTimeRef :: int
  intervals :: "(nat \<times> int) list"
  nextHandle :: nat
  timeouts :: "int list"
  completeCalls :: nat
  tickCalls :: "int list"

subsection \<open>JavaScript primitives used by the formatting code\<close>

text \<open>JavaScript's \<open>%\<close> truncates: the result has the sign of the dividend.\<close>

definition js_rem :: "int \<Rightarrow> int \<Rightarrow> int" where
  "js_rem a b = sgn a * (\<bar>a\<bar> mod \<bar>b\<bar>)"

definition digitChar :: "nat \<Rightarrow> char" where
  "digitChar d = ''0123456789'' ! d"

definition isDigit :: "char \<Rightarrow> bool" where
  "isDigit c = (c \<in> set ''0123456789'')"

fun digits :: "nat \<Rightarrow> string" where
  "digits n = (if n < 10 then [digitChar n] else digits (n div 10) @ [digitChar (n mod 10)])"

declare digits.simps [simp del]

text \<open>\<open>Number.prototype.toString\<close> on an integer.\<close>

definition toString :: "int \<Rightarrow> string" where
  "toString i = (if i < 0 then CHR ''-'' # digits (nat (- i)) else digits (nat i))"

text \<open>\<open>String.prototype.padStart\<close> with a one-character filler.\<close>

definition padStart :: "nat \<Rightarrow> char \<Rightarrow> string \<Rightarrow> string" where
  "padStart n c s = replicate (n - length s) c @ s"

subsection \<open>formatTime and createTimerDisplay\<close>

definition formatTime :: "int \<Rightarrow> string" where
  "formatTime totalSeconds' =
     (let hours = totalSeconds' div 3600;
          minutes' = (js_rem totalSeconds' 3600) div 60;
          seconds' = js_rem totalSeconds' 60
      in if hours > 0
         then padStart 2 CHR ''0'' (toString hours) @ '':'' @
              padStart 2 CHR ''0'' (toString minutes') @ '':'' @
              padStart 2 CHR ''0'' (toString seconds')
         else padStart 2 CHR ''0'' (toString minutes') @ '':'' @
              padStart 2 CHR ''0'' (toString seconds'))"

text \<open>
  The progress is a quotient; it is modelled in exact real arithmetic over the
  integer-valued seconds.
\<close>

definition createTimerDisplay :: "int \<Rightarrow> int \<Rightarrow> TimerDisplay" where
  "createTimerDisplay remainingSeconds totalSeconds' =
     (let minutes' = remainingSeconds div 60;
          seconds' = js_rem remainingSeconds 60;
          progress' = (if totalSeconds' > 0
                       then (real_of_int (totalSeconds' - remainingSeconds) / real_of_int totalSeconds') * 100
                       else 0)
      in \<lparr> formatted = formatTime remainingSeconds,
           minutes = minutes',
           seconds = seconds',
           totalSeconds = remainingSeconds,
           progress = min 100 (max 0 progress') \<rparr>)"

subsection \<open>The hook: initial state and operations\<close>

text \<open>
  \<open>useState(config.initialMinutes * 60)\<close> twice, \<open>useRef(null)\<close>, \<open>useRef(0)\<close> twice. Timer
  handles handed out by the runtime are positive, hence truthy in \<open>if (intervalRef.current)\<close>.
\<close>

definition init :: "TimerConfig \<Rightarrow> engine" where
  "init cfg = \<lparr> state = READY,
               totalDuration = initialMinutes cfg * 60,
               remainingTime = initialMinutes cfg * 60,
               intervalRef = None,
               startTimeRef = 0,
               pausedTimeRef = 0,
               intervals = [],
               nextHandle = 1,
               timeouts = [],
               completeCalls = 0,
               tickCalls = [] \<rparr>"

text \<open>The derived display of the current render.\<close>

definition display :: "engine \<Rightarrow> TimerDisplay" where
  "display e = createTimerDisplay (remainingTime e) (totalDuration e)"

definition canStart :: "engine \<Rightarrow> bool" where
  "canStart e = (state e = READY \<or> state e = PAUSED)"

definition canPause :: "engine \<Rightarrow> bool" where
  "canPause e = (state e = RUNNING)"

definition canStop :: "engine \<Rightarrow> bool" where
  "canStop e = (state e = RUNNING \<or> state e = PAUSED)"

definition canReset :: "engine \<Rightarrow> bool" where
  "canReset e = (state e \<noteq> READY)"

text \<open>\<open>clearInterval(h)\<close> of the runtime: the timer with handle \<open>h\<close> is no longer scheduled.\<close>

definition clearInterval :: "nat \<Rightarrow> engine \<Rightarrow> engine" where
  "clearInterval h e = e\<lparr> intervals := filter (\<lambda>iv. fst iv \<noteq> h) (intervals e) \<rparr>"

definition clearTimerInterval :: "engine \<Rightarrow> engine" where
  "clearTimerInterval e =
     (case intervalRef e of
        None \<Rightarrow> e
      | Some h \<Rightarrow> (clearInterval h e)\<lparr> intervalRef := None \<rparr>)"

text \<open>
  \<open>start\<close> checks only \<open>remainingTime\<close>; it schedules a new interval timer whose callback
  closes over the current \<open>totalDuration\<close>, and stores the handle in \<open>intervalRef\<close>.
\<close>

definition start :: "int \<Rightarrow> engine \<Rightarrow> engine" where
  "start now e =
     (if remainingTime e \<le> 0 then e
      else e\<lparr> state := RUNNING,
              startTimeRef := now - pausedTimeRef e,
              intervalRef := Some (nextHandle e),
              intervals := intervals e @ [(nextHandle e, totalDuration e)],
              nextHandle := nextHandle e + 1 \<rparr>)"

text \<open>Lines 102-103: the remaining time computed by one evaluation of the interval callback.\<close>

definition newRemainingTime :: "int \<Rightarrow> int \<Rightarrow> int \<Rightarrow> int" where
  "newRemainingTime totalDuration' startTime now =
     (let elapsed = now - startTime
      in max 0 (totalDuration' - elapsed div 1000))"

text \<open>
  One run of the interval callback of the timer \<open>iv\<close> at clock reading \<open>now\<close>. The runtime
  runs it only while the timer is scheduled. \<open>clearInterval(null)\<close> does nothing.
\<close>

definition tick :: "TimerConfig \<Rightarrow> int \<Rightarrow> nat \<times> int \<Rightarrow> engine \<Rightarrow> engine" where
  "tick cfg now iv e =
     (if iv \<notin> set (intervals e) then e
      else
        let new = newRemainingTime (snd iv) (startTimeRef e) now;
            e1 = e\<lparr> remainingTime := new,
                    tickCalls := (if onTick cfg then tickCalls e @ [new] else tickCalls e) \<rparr>
        in if new \<le> 0
           then
             (case intervalRef e1 of None \<Rightarrow> e1 | Some h \<Rightarrow> clearInterval h e1)
               \<lparr> intervalRef := None,
                 state := COMPLETED,
                 pausedTimeRef := 0,
                 completeCalls := (if onComplete cfg then completeCalls e + 1 else completeCalls e),
                 timeouts := (if autoReset cfg then timeouts e @ [snd iv] else timeouts e) \<rparr>
           else e1)"

text \<open>The delayed auto-reset callback: the \<open>n\<close>-th pending timeout fires.\<close>

definition autoResetFire :: "nat \<Rightarrow> engine \<Rightarrow> engine" where
  "autoResetFire n e =
     (if n < length (timeouts e)
      then e\<lparr> remainingTime := timeouts e ! n,
              state := READY,
              timeouts := take n (timeouts e) @ drop (Suc n) (timeouts e) \<rparr>
      else e)"

definition pause :: "int \<Rightarrow> engine \<Rightarrow> engine" where
  "pause now e =
     (if state e \<noteq> RUNNING then e
      else (clearTimerInterval e)\<lparr> state := PAUSED, pausedTimeRef := now - startTimeRef e \<rparr>)"

definition stop :: "engine \<Rightarrow> engine" where
  "stop e = (clearTimerInterval e)\<lparr> remainingTime := totalDuration e, state := READY, pausedTimeRef := 0 \<rparr>"

definition reset :: "engine \<Rightarrow> engine" where
  "reset e = (clearTimerInterval e)\<lparr> remainingTime := totalDuration e, state := READY, pausedTimeRef := 0 \<rparr>"

definition setDuration :: "int \<Rightarrow> engine \<Rightarrow> engine" where
  "setDuration minutes' e =
     (if state e = RUNNING then e
      else
        let newDuration = max 60 (min 59940 (minutes' * 60))
        in e\<lparr> totalDuration := newDuration,
              remainingTime := newDuration,
              state := READY,
              pausedTimeRef := 0 \<rparr>)"

subsection \<open>Runs: sequences of events\<close>

datatype event =
    Start int
  | Pause int
  | Stop
  | Reset
  | SetDuration int
  | Tick int "nat \<times> int"
  | AutoReset nat

fun step :: "TimerConfig \<Rightarrow> event \<Rightarrow> engine \<Rightarrow> engine" where
  "step cfg (Start now) e = start now e"
| "step cfg (Pause now) e = pause now e"
| "step cfg Stop e = stop e"
| "step cfg Reset e = reset e"
| "step cfg (SetDuration m) e = setDuration m e"
| "step cfg (Tick now iv) e = tick cfg now iv e"
| "step cfg (AutoReset n) e = autoResetFire n e"

fun run :: "TimerConfig \<Rightarrow> event list \<Rightarrow> engine \<Rightarrow> engine" where
  "run cfg [] e = e"
| "run cfg (ev # evs) e = run cfg evs (step cfg ev e)"

text \<open>
  Evaluations of interval timers: each element is the clock reading and the timer whose
  callback the runtime runs.
\<close>

definition evaluations :: "(int \<times> (nat \<times> int)) list \<Rightarrow> event list" where
  "evaluations tks = map (\<lambda>tk. Tick (fst tk) (snd tk)) tks"

subsection \<open>Shapes of formatted strings\<close>

text \<open>\<open>MM:SS\<close>: two digits, a colon, two digits.\<close>

definition isMMSS :: "string \<Rightarrow> bool" where
  "isMMSS s =
     (case s of
        [m1, m2, c, s1, s2] \<Rightarrow>
          isDigit m1 \<and> isDigit m2 \<and> c = CHR '':'' \<and> isDigit s1 \<and> isDigit s2
      | _ \<Rightarrow> False)"

text \<open>\<open>HH:MM:SS\<close>: an hours field of at least two digits, then two-digit minutes and seconds.\<close>

definition isHHMMSS :: "string \<Rightarrow> bool" where
  "isHHMMSS s =
     (case rev s of
        s2 # s1 # c2 # m2 # m1 # c1 # hs \<Rightarrow>
          isDigit s2 \<and> isDigit s1 \<and> c2 = CHR '':'' \<and> isDigit m2 \<and> isDigit m1 \<and>
          c1 = CHR '':'' \<and> 2 \<le> length hs \<and> list_all isDigit hs
      | _ \<Rightarrow> False)"

subsection \<open>Runs that respect the capability guard and the clock\<close>

text \<open>
  The hosts in the repository call \<open>start\<close> only when \<open>canStart\<close> holds (the keyboard handler
  tests it, the start button is rendered for READY and PAUSED only). A run is guarded from
  clock reading \<open>t\<close> when \<open>start\<close> is never called while RUNNING, the clock readings never
  decrease, and a delayed auto-reset fires while the engine is still in the COMPLETED state
  that scheduled it (it is the most recently scheduled one).
\<close>

fun eventTime :: "int \<Rightarrow> event \<Rightarrow> int" where
  "eventTime t (Start now) = now"
| "eventTime t (Pause now) = now"
| "eventTime t (Tick now iv) = now"
| "eventTime t Stop = t"
| "eventTime t Reset = t"
| "eventTime t (SetDuration m) = t"
| "eventTime t (AutoReset n) = t"

fun admissible :: "int \<Rightarrow> engine \<Rightarrow> event \<Rightarrow> bool" where
  "admissible t e (Start now) = (t \<le> now \<and> state e \<noteq> RUNNING)"
| "admissible t e (Pause now) = (t \<le> now)"
| "admissible t e (Tick now iv) = (t \<le> now)"
| "admissible t e Stop = True"
| "admissible t e Reset = True"
| "admissible t e (SetDuration m) = True"
| "admissible t e (AutoReset n) = (state e = COMPLETED \<and> Suc n = length (timeouts e))"

fun guarded :: "TimerConfig \<Rightarrow> int \<Rightarrow> engine \<Rightarrow> event list \<Rightarrow> bool" where
  "guarded cfg t e [] = True"
| "guarded cfg t e (ev # evs) =
     (admissible t e ev \<and> guarded cfg (eventTime t ev) (step cfg ev e) evs)"

text \<open>
  A READY engine at rest: the countdown shows the whole session, nothing is banked, and the
  hook holds no timer handle. This is the state that \<open>init\<close>, \<open>stop\<close>, \<open>reset\<close> and
  \<open>setDuration\<close> produce.
\<close>

definition readyAtRest :: "engine \<Rightarrow> bool" where
  "readyAtRest e =
     (state e = READY \<and> remainingTime e = totalDuration e \<and> pausedTimeRef e = 0 \<and>
      intervalRef e = None)"

text \<open>The invariant of guarded runs, relative to the latest clock reading \<open>t\<close>.\<close>

definition engine_inv :: "TimerConfig \<Rightarrow> int \<Rightarrow> engine \<Rightarrow> bool" where
  "engine_inv cfg t e =
     (0 < totalDuration e \<and> 0 \<le> remainingTime e \<and> remainingTime e \<le> totalDuration e \<and>
      (autoReset cfg \<or> timeouts e = []) \<and>
      (case state e of
         RUNNING \<Rightarrow>
           0 < remainingTime e \<and> startTimeRef e \<le> t \<and>
           (case intervalRef e of
              None \<Rightarrow> False
            | Some h \<Rightarrow> intervals e = [(h, totalDuration e)])
       | PAUSED \<Rightarrow> 0 \<le> pausedTimeRef e \<and> intervalRef e = None \<and> intervals e = []
       | READY \<Rightarrow>
           pausedTimeRef e = 0 \<and> remainingTime e = totalDuration e \<and>
           intervalRef e = None \<and> intervals e = []
       | COMPLETED \<Rightarrow>
           pausedTimeRef e = 0 \<and> remainingTime e = 0 \<and>
           intervalRef e = None \<and> intervals e = [] \<and>
           (timeouts e = [] \<or> last (timeouts e) = totalDuration e)))"

subsection \<open>Concrete sessions\<close>

text \<open>
  The configuration that the host component \<open>MeditationTimer\<close> passes to the hook: it
  always wraps \<open>onComplete\<close>, never sets \<open>onTick\<close>, and forwards its \<open>autoReset\<close> property.
\<close>

definition hostConfig :: "int \<Rightarrow> bool \<Rightarrow> TimerConfig" where
  "hostConfig initialDuration autoReset' =
     \<lparr> initialMinutes = initialDuration, autoReset = autoReset', onComplete = True, onTick = False \<rparr>"

text \<open>A two-hour session, evaluated 90 minutes after its start.\<close>

definition lateInLongSession :: engine where
  "lateInLongSession =
     run (hostConfig 120 False) [Start 0, Tick 5400000 (1, 7200)] (init (hostConfig 120 False))"

text \<open>A 15-minute session paused one second after its start.\<close>

definition pausedSession :: engine where
  "pausedSession = run (hostConfig 15 False) [Start 0, Pause 1000] (init (hostConfig 15 False))"

text \<open>A 15-minute session that has just been started.\<close>

definition runningSession :: engine where
  "runningSession = run (hostConfig 15 False) [Start 0] (init (hostConfig 15 False))"

text \<open>A one-minute session that ran to its end.\<close>

definition completedSession :: engine where
  "completedSession =
     run (hostConfig 1 False) [Start 0, Tick 60000 (1, 60)] (init (hostConfig 1 False))"

text \<open>A one-minute session whose first evaluation reads a clock that was set back by ten seconds.\<close>

definition clockSetBack :: engine where
  "clockSetBack =
     run (hostConfig 1 False) [Start 10000, Tick 0 (1, 60)] (init (hostConfig 1 False))"

text \<open>
  \<open>start\<close> called twice, then \<open>stop\<close> and \<open>setDuration(1)\<close>; the timer of the first
  \<open>start\<close> is still scheduled and fires.
\<close>

definition doubleStart :: engine where
  "doubleStart =
     run (hostConfig 15 False) [Start 0, Start 1000, Stop, SetDuration 1, Tick 2000 (1, 900)]
       (init (hostConfig 15 False))"


text \<open>
  Auto-reset configured: the session completes at 60000; within the one-second delay the
  user resets, starts and pauses; then the delayed callback fires.
\<close>

definition autoResetRace :: engine where
  "autoResetRace =
     run (hostConfig 1 True)
       [Start 0, Tick 60000 (1, 60), Reset, Start 60100, Pause 60600, AutoReset 0]
       (init (hostConfig 1 True))"

section \<open>Properties\<close>

subsection \<open>Auxiliary facts\<close>

lemmas ops = start_def tick_def init_def pause_def stop_def reset_def setDuration_def
  autoResetFire_def clearTimerInterval_def clearInterval_def newRemainingTime_def hostConfig_def Let_def

lemma isDigit_digitChar: "d < 10 \<Longrightarrow> isDigit (digitChar d)"
proof -
  assume "d < 10"
  then have "d \<in> {0,1,2,3,4,5,6,7,8,9}" by auto
  then show ?thesis by (auto simp: isDigit_def digitChar_def)
qed

lemma digits_lt10: "n < 10 \<Longrightarrow> digits n = [digitChar n]"
  by (simp add: digits.simps)

lemma digits_lt100: "10 \<le> n \<Longrightarrow> n < 100 \<Longrightarrow> digits n = [digitChar (n div 10), digitChar (n mod 10)]"
  by (subst digits.simps) (simp add: digits_lt10)

lemma digits_all: "list_all isDigit (digits n)"
proof (induction n rule: digits.induct)
  case (1 n)
  show ?case
  proof (cases "n < 10")
    case True
    then show ?thesis by (simp add: digits_lt10 isDigit_digitChar)
  next
    case False
    with 1 have "list_all isDigit (digits (n div 10))" by simp
    moreover have "isDigit (digitChar (n mod 10))" by (simp add: isDigit_digitChar)
    ultimately show ?thesis using False by (subst digits.simps) simp
  qed
qed

lemma pad2_small:
  assumes "0 \<le> i" "i < 100"
  shows "padStart 2 CHR ''0'' (toString i) = [digitChar (nat i div 10), digitChar (nat i mod 10)]"
proof (cases "i < 10")
  case True
  with assms have "nat i < 10" by simp
  then have "digits (nat i) = [digitChar (nat i)]" by (rule digits_lt10)
  moreover have "nat i div 10 = 0" "nat i mod 10 = nat i" using \<open>nat i < 10\<close> by simp_all
  moreover have "digitChar 0 = CHR ''0''" by (simp add: digitChar_def)
  ultimately show ?thesis using assms by (simp add: padStart_def toString_def)
next
  case False
  with assms have "10 \<le> nat i" "nat i < 100" by simp_all
  then have "digits (nat i) = [digitChar (nat i div 10), digitChar (nat i mod 10)]" by (rule digits_lt100)
  then show ?thesis using assms by (simp add: padStart_def toString_def)
qed

lemma pad2_digits:
  assumes "0 \<le> i"
  shows "list_all isDigit (padStart 2 CHR ''0'' (toString i)) \<and> 2 \<le> length (padStart 2 CHR ''0'' (toString i))"
proof -
  have z: "isDigit CHR ''0''" by (simp add: isDigit_def)
  have "list_all isDigit (digits (nat i))" by (rule digits_all)
  then show ?thesis using assms z
    by (auto simp: padStart_def toString_def list_all_iff)
qed

lemma js_rem_nonneg: "0 \<le> a \<Longrightarrow> 0 < b \<Longrightarrow> js_rem a b = a mod b"
  by (simp add: js_rem_def sgn_if)

lemma formatTime_short:
  assumes "0 \<le> s" "s < 3600"
  shows "formatTime s = [digitChar (nat (s div 60) div 10), digitChar (nat (s div 60) mod 10), CHR '':'',
                         digitChar (nat (s mod 60) div 10), digitChar (nat (s mod 60) mod 10)]"
proof -
  have h: "s div 3600 = 0" using assms by simp
  have m: "js_rem s 3600 div 60 = s div 60" using assms by (simp add: js_rem_nonneg)
  have sc: "js_rem s 60 = s mod 60" using assms by (simp add: js_rem_nonneg)
  have mb: "0 \<le> s div 60" "s div 60 < 100" using assms by auto
  have sb: "0 \<le> s mod 60" "s mod 60 < 100" using assms by auto
  show ?thesis
    by (simp add: formatTime_def h m sc pad2_small[OF mb] pad2_small[OF sb])
qed

lemma formatTime_long:
  assumes "3600 \<le> s"
  shows "formatTime s = padStart 2 CHR ''0'' (toString (s div 3600)) @
           [CHR '':'', digitChar (nat ((s mod 3600) div 60) div 10), digitChar (nat ((s mod 3600) div 60) mod 10), CHR '':'',
                         digitChar (nat (s mod 60) div 10), digitChar (nat (s mod 60) mod 10)]"
proof -
  have h: "0 < s div 3600" using assms by (simp add: pos_imp_zdiv_pos_iff)
  have m: "js_rem s 3600 div 60 = (s mod 3600) div 60" using assms by (simp add: js_rem_nonneg)
  have sc: "js_rem s 60 = s mod 60" using assms by (simp add: js_rem_nonneg)
  have mb: "0 \<le> (s mod 3600) div 60" "(s mod 3600) div 60 < 100" by auto
  have sb: "0 \<le> s mod 60" "s mod 60 < 100" by auto
  show ?thesis using h
    by (simp add: formatTime_def m sc pad2_small[OF mb] pad2_small[OF sb])
qed

lemma formatTime_MMSS: "0 \<le> s \<Longrightarrow> s < 3600 \<Longrightarrow> isMMSS (formatTime s)"
  by (simp add: formatTime_short isMMSS_def isDigit_digitChar)

lemma formatTime_HHMMSS: 
  assumes "3600 \<le> s" shows "isHHMMSS (formatTime s)"
proof -
  have h: "0 \<le> s div 3600" using assms by simp
  show ?thesis using pad2_digits[OF h]
    by (simp add: formatTime_long[OF assms] isHHMMSS_def isDigit_digitChar)
qed

lemma formatted_display: "formatted (display e) = formatTime (remainingTime e)"
  by (simp add: display_def createTimerDisplay_def)

subsection \<open>The invariant of guarded runs\<close>

lemma engine_inv_init:
  "1 \<le> initialMinutes cfg \<Longrightarrow> engine_inv cfg t (init cfg)"
  by (simp add: engine_inv_def init_def)

lemma engine_inv_mono: "engine_inv cfg t e \<Longrightarrow> t \<le> t' \<Longrightarrow> engine_inv cfg t' e"
  by (auto simp: engine_inv_def split: TimerState.splits option.splits)

lemma engine_inv_start:
  "engine_inv cfg t e \<Longrightarrow> t \<le> now \<Longrightarrow> state e \<noteq> RUNNING \<Longrightarrow> engine_inv cfg now (start now e)"
  by (auto simp: engine_inv_def start_def split: TimerState.splits option.splits)

lemma engine_inv_pause:
  "engine_inv cfg t e \<Longrightarrow> t \<le> now \<Longrightarrow> engine_inv cfg now (pause now e)"
  by (auto simp: engine_inv_def pause_def clearTimerInterval_def clearInterval_def split: TimerState.splits option.splits)

lemma engine_inv_stop:
  "engine_inv cfg t e \<Longrightarrow> engine_inv cfg t (stop e)"
  by (auto simp: engine_inv_def stop_def clearTimerInterval_def clearInterval_def split: TimerState.splits option.splits)

lemma engine_inv_reset:
  "engine_inv cfg t e \<Longrightarrow> engine_inv cfg t (reset e)"
  by (auto simp: engine_inv_def reset_def clearTimerInterval_def clearInterval_def split: TimerState.splits option.splits)

lemma engine_inv_setDuration:
  "engine_inv cfg t e \<Longrightarrow> engine_inv cfg t (setDuration m e)"
  by (auto simp: engine_inv_def setDuration_def Let_def split: TimerState.splits option.splits)

lemma newRemainingTime_bounds:
  "s \<le> now \<Longrightarrow> 0 \<le> newRemainingTime T s now \<and> (0 \<le> T \<longrightarrow> newRemainingTime T s now \<le> T)"
proof -
  assume "s \<le> now"
  then have "0 \<le> (now - s) div 1000" by simp
  then show ?thesis by (simp add: newRemainingTime_def Let_def)
qed

lemma engine_inv_tick:
  assumes "engine_inv cfg t e" "t \<le> now"
  shows "engine_inv cfg now (tick cfg now iv e)"
proof (cases "iv \<in> set (intervals e)")
  case False
  then show ?thesis using assms by (simp add: tick_def engine_inv_mono)
next
  case True
  with assms(1) obtain h where r: "state e = RUNNING" "intervalRef e = Some h" "intervals e = [(h, totalDuration e)]"
    by (auto simp: engine_inv_def split: TimerState.splits option.splits)
  with True have iv: "iv = (h, totalDuration e)" by simp
  from assms r have s: "startTimeRef e \<le> now" "0 < totalDuration e" "autoReset cfg \<or> timeouts e = []"
    by (auto simp: engine_inv_def)
  note b = newRemainingTime_bounds[OF s(1), of "totalDuration e"]
  show ?thesis using r s b
    by (auto simp: tick_def iv Let_def engine_inv_def clearInterval_def)
qed

lemma engine_inv_autoReset:
  assumes "engine_inv cfg t e" "state e = COMPLETED" "Suc n = length (timeouts e)"
  shows "engine_inv cfg t (autoResetFire n e)"
proof -
  from assms(3) have ne: "timeouts e \<noteq> []" and n: "n = length (timeouts e) - 1" by auto
  then have "timeouts e ! n = last (timeouts e)" by (simp add: last_conv_nth)
  with assms ne show ?thesis
    by (auto simp: engine_inv_def autoResetFire_def)
qed

lemma engine_inv_step:
  "engine_inv cfg t e \<Longrightarrow> admissible t e ev \<Longrightarrow> engine_inv cfg (eventTime t ev) (step cfg ev e)"
  by (cases ev)
     (simp_all add: engine_inv_start engine_inv_pause engine_inv_stop engine_inv_reset
        engine_inv_setDuration engine_inv_tick engine_inv_autoReset)

lemma engine_inv_run:
  "engine_inv cfg t e \<Longrightarrow> guarded cfg t e evs \<Longrightarrow> \<exists>t'. engine_inv cfg t' (run cfg evs e)"
proof (induction evs arbitrary: t e)
  case Nil
  then show ?case by auto
next
  case (Cons ev evs)
  then show ?case using engine_inv_step by (metis guarded.simps(2) run.simps(2))
qed

lemma guarded_take: "guarded cfg t e evs \<Longrightarrow> guarded cfg t e (take n evs)"
proof (induction evs arbitrary: t e n)
  case Nil
  then show ?case by simp
next
  case (Cons ev evs)
  then show ?case by (cases n) simp_all
qed

subsection \<open>Formatting claims\<close>



text \<open>
  Claim C5, as the code has it. The display formats \<open>remainingTime\<close>, so the shape follows
  the remaining time and not the session length: in every engine state with
  \<open>0 \<le> remainingTime\<close>, the formatted string is \<open>MM:SS\<close> when \<open>remainingTime < 3600\<close> and
  \<open>HH:MM:SS\<close> when \<open>remainingTime \<ge> 3600\<close>. Hence it is \<open>MM:SS\<close> whenever
  \<open>0 \<le> remainingTime \<le> totalDuration < 3600\<close>. Nothing is said about a session of less than
  an hour whose \<open>remainingTime\<close> exceeds its \<open>totalDuration\<close>.
\<close>

theorem display_format_by_remaining:
  "0 \<le> remainingTime e \<Longrightarrow>
     (remainingTime e < 3600 \<longrightarrow> isMMSS (formatted (display e))) \<and>
     (3600 \<le> remainingTime e \<longrightarrow> isHHMMSS (formatted (display e))) \<and>
     (remainingTime e \<le> totalDuration e \<and> totalDuration e < 3600 \<longrightarrow> isMMSS (formatted (display e)))"
  by (simp add: formatted_display formatTime_MMSS formatTime_HHMMSS)

text \<open>
  Witness for C5: a fresh 15-minute session shows \<open>MM:SS\<close>, a fresh two-hour session
  shows \<open>HH:MM:SS\<close>, and the two-hour session with 30 minutes left shows \<open>MM:SS\<close>.
\<close>

theorem display_format_by_remaining_witness:
  "isMMSS (formatted (display (init (hostConfig 15 False)))) \<and>
   isHHMMSS (formatted (display (init (hostConfig 120 False)))) \<and>
   isMMSS (formatted (display lateInLongSession))"
proof -
  have l: "remainingTime lateInLongSession = 1800"
    by (simp add: lateInLongSession_def ops)
  show ?thesis
    using display_format_by_remaining [of "init (hostConfig 15 False)"]
      display_format_by_remaining [of "init (hostConfig 120 False)"]
      display_format_by_remaining [of lateInLongSession]
    by (simp add: l) (simp add: init_def hostConfig_def)
qed

text \<open>
  Counterexample to C5 as stated: a two-hour session (7200 seconds, not under one hour) that
  is running with 1800 seconds left displays \<open>30:00\<close>, which is not of the shape \<open>HH:MM:SS\<close>.
\<close>

theorem display_format_counterexample:
  "state lateInLongSession = RUNNING \<and> totalDuration lateInLongSession = 7200 \<and>
   remainingTime lateInLongSession = 1800 \<and>
   formatted (display lateInLongSession) = ''30:00'' \<and>
   \<not> isHHMMSS (formatted (display lateInLongSession))"
proof -
  have l: "state lateInLongSession = RUNNING \<and> totalDuration lateInLongSession = 7200 \<and> remainingTime lateInLongSession = 1800"
    by (simp add: lateInLongSession_def ops)
  have f: "formatTime 1800 = ''30:00''" by code_simp
  have "\<not> isHHMMSS ''30:00''" by (simp add: isHHMMSS_def)
  then show ?thesis by (simp add: l formatted_display f)
qed

subsection \<open>Progress\<close>

text \<open>
  Claim C6. For every total \<open>T > 0\<close> and every remaining time \<open>r\<close> with \<open>0 \<le> r \<le> T\<close> the
  progress of the display equals \<open>(T - r) / T * 100\<close> and lies between 0 and 100; when the
  total is 0 the progress is 0, whatever the remaining time.
\<close>

theorem progress_formula:
  "(0 < T \<and> 0 \<le> r \<and> r \<le> T \<longrightarrow>
      progress (createTimerDisplay r T) = real_of_int (T - r) / real_of_int T * 100 \<and>
      0 \<le> progress (createTimerDisplay r T) \<and> progress (createTimerDisplay r T) \<le> 100) \<and>
   progress (createTimerDisplay r' 0) = 0"
proof -
  have z: "progress (createTimerDisplay r' 0) = 0"
    by (simp add: createTimerDisplay_def)
  {
    assume h: "0 < T" "0 \<le> r" "r \<le> T"
    let ?p = "real_of_int (T - r) / real_of_int T * 100"
    from h have lo: "0 \<le> ?p" by simp
    from h have "real_of_int (T - r) / real_of_int T \<le> 1" by simp
    then have "real_of_int (T - r) / real_of_int T * 100 \<le> 1 * 100"
      by (rule mult_right_mono) simp
    then have hi: "?p \<le> 100" by simp
    have "progress (createTimerDisplay r T) = min 100 (max 0 ?p)"
      using h by (simp add: createTimerDisplay_def)
    with lo hi have "progress (createTimerDisplay r T) = ?p" by simp
    with lo hi have "progress (createTimerDisplay r T) = ?p \<and>
      0 \<le> progress (createTimerDisplay r T) \<and> progress (createTimerDisplay r T) \<le> 100" by simp
  }
  with z show ?thesis by blast
qed

text \<open>
  Witness for C6: 225 of 900 seconds left is 75 percent, 900 of 900 is 0 percent, 0 of 900
  is 100 percent, and a total of 0 gives 0.
\<close>

theorem progress_formula_witness:
  "progress (createTimerDisplay 225 900) = 75 \<and> progress (createTimerDisplay 900 900) = 0 \<and>
   progress (createTimerDisplay 0 900) = 100 \<and> progress (createTimerDisplay 5 0) = 0"
  using progress_formula [of 900 225 5] progress_formula [of 900 900 5] progress_formula [of 900 0 5]
  by simp

subsection \<open>setDuration\<close>

lemma clamp_minutes: "max 60 (min 59940 (m * 60)) = max 1 (min 999 m) * (60::int)"
  by (simp add: max_def min_def)

text \<open>
  Claim C8. From READY, \<open>setDuration(m)\<close> for any integer \<open>m\<close> sets \<open>totalDuration\<close> to
  \<open>clamp(m, 1, 999) * 60\<close> and \<open>remainingTime\<close> to the same value and stays READY; the
  operation has no failing branch. \<open>setDuration(0)\<close> gives 60 seconds and
  \<open>setDuration(1000)\<close> gives 59940 seconds.
\<close>

theorem setDuration_clamps:
  "state e = READY \<Longrightarrow>
     totalDuration (setDuration m e) = max 1 (min 999 m) * 60 \<and>
     remainingTime (setDuration m e) = totalDuration (setDuration m e) \<and>
     state (setDuration m e) = READY \<and>
     totalDuration (setDuration 0 e) = 60 \<and>
     totalDuration (setDuration 1000 e) = 59940"
  by (simp add: setDuration_def clamp_minutes Let_def)

text \<open>
  Witness for C8 on the host's initial 15-minute engine, with arguments 0, 1000, -7 and 20.
\<close>

theorem setDuration_clamps_witness:
  "state (init (hostConfig 15 False)) = READY \<and>
   totalDuration (setDuration 0 (init (hostConfig 15 False))) = 60 \<and>
   remainingTime (setDuration 0 (init (hostConfig 15 False))) = 60 \<and>
   totalDuration (setDuration 1000 (init (hostConfig 15 False))) = 59940 \<and>
   totalDuration (setDuration (-7) (init (hostConfig 15 False))) = 60 \<and>
   totalDuration (setDuration 20 (init (hostConfig 15 False))) = 1200"
  using setDuration_clamps [of "init (hostConfig 15 False)" 0]
    setDuration_clamps [of "init (hostConfig 15 False)" "-7"]
    setDuration_clamps [of "init (hostConfig 15 False)" 20]
  by (simp add: init_def)

subsection \<open>setDuration outside READY\<close>

lemma step_totalDuration:
  "totalDuration (step cfg ev e) \<noteq> totalDuration e \<Longrightarrow> state e \<noteq> RUNNING \<and> (\<exists>m. ev = SetDuration m)"
  by (cases ev) (auto simp: ops split: if_splits option.splits)

text \<open>
  Claim C4, as the code has it. The guard of \<open>setDuration\<close> is \<open>state === RUNNING\<close>: while
  RUNNING the call changes nothing. In every other state (READY, PAUSED, COMPLETED) the call
  sets \<open>totalDuration\<close> and \<open>remainingTime\<close> to \<open>clamp(m, 1, 999) * 60\<close>, the state to READY and
  the banked offset to 0. No other event changes \<open>totalDuration\<close>, so it changes only through
  \<open>setDuration\<close> while the state is not RUNNING.
\<close>

theorem setDuration_frozen_while_running:
  "(state e = RUNNING \<longrightarrow> setDuration m e = e) \<and>
   (state e \<noteq> RUNNING \<longrightarrow>
      totalDuration (setDuration m e) = max 1 (min 999 m) * 60 \<and>
      remainingTime (setDuration m e) = max 1 (min 999 m) * 60 \<and>
      state (setDuration m e) = READY \<and>
      pausedTimeRef (setDuration m e) = 0) \<and>
   (totalDuration (step cfg ev e) \<noteq> totalDuration e \<longrightarrow>
      state e \<noteq> RUNNING \<and> (\<exists>m'. ev = SetDuration m'))"
proof -
  have a: "state e = RUNNING \<longrightarrow> setDuration m e = e"
    by (simp add: setDuration_def)
  have b: "state e \<noteq> RUNNING \<longrightarrow>
      totalDuration (setDuration m e) = max 1 (min 999 m) * 60 \<and>
      remainingTime (setDuration m e) = max 1 (min 999 m) * 60 \<and>
      state (setDuration m e) = READY \<and>
      pausedTimeRef (setDuration m e) = 0"
    by (simp add: setDuration_def clamp_minutes Let_def)
  from a b step_totalDuration show ?thesis by blast
qed

text \<open>
  Witness for C4: \<open>setDuration(1)\<close> leaves the running 15-minute session as it is and turns
  the paused one into a READY one-minute session.
\<close>

theorem setDuration_frozen_while_running_witness:
  "state runningSession = RUNNING \<and> setDuration 1 runningSession = runningSession \<and>
   state pausedSession = PAUSED \<and> totalDuration pausedSession = 900 \<and>
   totalDuration (setDuration 1 pausedSession) = 60 \<and>
   remainingTime (setDuration 1 pausedSession) = 60 \<and>
   state (setDuration 1 pausedSession) = READY \<and>
   totalDuration (step (hostConfig 15 False) (SetDuration 1) pausedSession) \<noteq> totalDuration pausedSession"
proof -
  have r: "state runningSession = RUNNING"
    by (simp add: runningSession_def ops)
  have p: "state pausedSession = PAUSED \<and> totalDuration pausedSession = 900"
    by (simp add: pausedSession_def ops)
  show ?thesis
    using setDuration_frozen_while_running [of runningSession 1 "hostConfig 15 False" "SetDuration 1"]
      setDuration_frozen_while_running [of pausedSession 1 "hostConfig 15 False" "SetDuration 1"]
    by (simp add: r p)
qed

text \<open>
  Counterexample to C4 as stated: in PAUSED, \<open>setDuration(1)\<close> changes \<open>totalDuration\<close> from 900
  to 60 and the state to READY; in COMPLETED, \<open>setDuration(5)\<close> changes it from 60 to 300.
\<close>

theorem setDuration_frozen_counterexample:
  "state pausedSession = PAUSED \<and> totalDuration pausedSession = 900 \<and>
   state (setDuration 1 pausedSession) = READY \<and>
   totalDuration (setDuration 1 pausedSession) = 60 \<and>
   remainingTime (setDuration 1 pausedSession) = 60 \<and>
   state completedSession = COMPLETED \<and> totalDuration completedSession = 60 \<and>
   totalDuration (setDuration 5 completedSession) = 300 \<and>
   state (setDuration 5 completedSession) = READY"
  by (simp add: pausedSession_def completedSession_def ops)

subsection \<open>Guarded transitions\<close>

lemma clearTimerInterval_fields:
  "state (clearTimerInterval e) = state e" "totalDuration (clearTimerInterval e) = totalDuration e"
  "intervalRef (clearTimerInterval e) = None"
  by (simp_all add: clearTimerInterval_def clearInterval_def split: option.splits)

lemma stop_at_rest: "readyAtRest e \<Longrightarrow> stop e = e"
  by (cases e) (simp add: readyAtRest_def stop_def clearTimerInterval_def)

lemma stop_idem: "stop (stop e) = stop e"
  by (simp add: stop_def clearTimerInterval_def clearInterval_def split: option.splits)

lemma pause_idem: "pause now' (pause now e) = pause now e"
  by (simp add: pause_def)

lemma stop_is_reset: "stop e = reset e"
  by (simp add: stop_def reset_def)

lemma stop_result: "readyAtRest (stop e) \<and> totalDuration (stop e) = totalDuration e"
  by (simp add: readyAtRest_def stop_def clearTimerInterval_fields)

lemma guarded_run_ready_or_completed:
  assumes "1 \<le> initialMinutes cfg" "guarded cfg t (init cfg) evs"
  shows "(state (run cfg evs (init cfg)) = READY \<longrightarrow> readyAtRest (run cfg evs (init cfg))) \<and>
         (state (run cfg evs (init cfg)) = COMPLETED \<longrightarrow> remainingTime (run cfg evs (init cfg)) = 0)"
proof -
  from engine_inv_init [OF assms(1)] assms(2)
  obtain t' where "engine_inv cfg t' (run cfg evs (init cfg))"
    using engine_inv_run by blast
  then show ?thesis by (auto simp: engine_inv_def readyAtRest_def)
qed

text \<open>
  Claim C2, as the code has it.
  \<^item> \<open>pause\<close> in any state other than RUNNING leaves the whole engine unchanged.
  \<^item> \<open>start\<close> leaves the whole engine unchanged when \<open>remainingTime \<le> 0\<close>; this is the case in
    every COMPLETED state of a guarded run.
  \<^item> \<open>stop\<close> and \<open>reset\<close> leave the whole engine unchanged when it is READY at rest (the whole
    session remaining, nothing banked, no timer handle held); this is the case in every READY
    state of a guarded run.
  \<^item> A second consecutive \<open>pause\<close>, \<open>stop\<close> or \<open>reset\<close> changes nothing.
  \<^item> \<open>stop\<close> has no guard and is the same function as \<open>reset\<close>: from every state, COMPLETED
    included, it leads to READY at rest with the duration unchanged.
  Nothing is said about \<open>start\<close> while RUNNING, nor about \<open>stop\<close> and \<open>reset\<close> on a READY
  engine that is not at rest. No operation has a failing branch.
\<close>

theorem guarded_transitions:
  "(state e \<noteq> RUNNING \<longrightarrow> pause now e = e) \<and>
   (remainingTime e \<le> 0 \<longrightarrow> start now e = e) \<and>
   (readyAtRest e \<longrightarrow> stop e = e \<and> reset e = e) \<and>
   (1 \<le> initialMinutes cfg \<and> guarded cfg t (init cfg) evs \<longrightarrow>
      (state (run cfg evs (init cfg)) = READY \<longrightarrow>
         stop (run cfg evs (init cfg)) = run cfg evs (init cfg) \<and>
         reset (run cfg evs (init cfg)) = run cfg evs (init cfg)) \<and>
      (state (run cfg evs (init cfg)) = COMPLETED \<longrightarrow>
         start now (run cfg evs (init cfg)) = run cfg evs (init cfg))) \<and>
   pause now' (pause now e) = pause now e \<and>
   stop (stop e) = stop e \<and>
   reset (reset e) = reset e \<and>
   stop e = reset e \<and>
   readyAtRest (stop e) \<and> totalDuration (stop e) = totalDuration e"
proof -
  have p: "state e \<noteq> RUNNING \<longrightarrow> pause now e = e"
    by (simp add: pause_def)
  have s: "remainingTime e \<le> 0 \<longrightarrow> start now e = e" for e
    by (simp add: start_def)
  have r: "readyAtRest e \<longrightarrow> stop e = e \<and> reset e = e" for e
    using stop_at_rest [of e] by (simp add: stop_is_reset [symmetric])
  have g: "1 \<le> initialMinutes cfg \<and> guarded cfg t (init cfg) evs \<longrightarrow>
      (state (run cfg evs (init cfg)) = READY \<longrightarrow>
         stop (run cfg evs (init cfg)) = run cfg evs (init cfg) \<and>
         reset (run cfg evs (init cfg)) = run cfg evs (init cfg)) \<and>
      (state (run cfg evs (init cfg)) = COMPLETED \<longrightarrow>
         start now (run cfg evs (init cfg)) = run cfg evs (init cfg))"
    using guarded_run_ready_or_completed [of cfg t evs] r [of "run cfg evs (init cfg)"]
      s [of "run cfg evs (init cfg)"]
    by simp
  have i: "reset (reset e) = reset e"
    using stop_idem [of e] by (simp add: stop_is_reset)
  from p s [of e] r [of e] g i pause_idem [of now' now e] stop_idem [of e] stop_is_reset [of e]
    stop_result [of e]
  show ?thesis by blast
qed

text \<open>
  Witness for C2 on the initial, the paused and the completed session, and on the states of
  two guarded runs: READY after a stop, and COMPLETED.
\<close>

theorem guarded_transitions_witness:
  "pause 5 (init (hostConfig 15 False)) = init (hostConfig 15 False) \<and>
   pause 5 pausedSession = pausedSession \<and>
   pause 5 completedSession = completedSession \<and>
   start 5 completedSession = completedSession \<and>
   stop (init (hostConfig 15 False)) = init (hostConfig 15 False) \<and>
   reset (init (hostConfig 15 False)) = init (hostConfig 15 False) \<and>
   readyAtRest (stop completedSession) \<and>
   guarded (hostConfig 1 False) 0 (init (hostConfig 1 False)) [Start 0, Pause 1000, Stop] \<and>
   state (run (hostConfig 1 False) [Start 0, Pause 1000, Stop] (init (hostConfig 1 False))) = READY \<and>
   stop (run (hostConfig 1 False) [Start 0, Pause 1000, Stop] (init (hostConfig 1 False)))
     = run (hostConfig 1 False) [Start 0, Pause 1000, Stop] (init (hostConfig 1 False)) \<and>
   guarded (hostConfig 1 False) 0 (init (hostConfig 1 False)) [Start 0, Tick 60000 (1, 60)] \<and>
   state (run (hostConfig 1 False) [Start 0, Tick 60000 (1, 60)] (init (hostConfig 1 False))) = COMPLETED \<and>
   start 70000 (run (hostConfig 1 False) [Start 0, Tick 60000 (1, 60)] (init (hostConfig 1 False)))
     = run (hostConfig 1 False) [Start 0, Tick 60000 (1, 60)] (init (hostConfig 1 False))"
proof -
  have i: "state (init (hostConfig 15 False)) \<noteq> RUNNING \<and> readyAtRest (init (hostConfig 15 False))"
    by (simp add: readyAtRest_def init_def)
  have p: "state pausedSession \<noteq> RUNNING"
    by (simp add: pausedSession_def ops)
  have c: "state completedSession \<noteq> RUNNING \<and> remainingTime completedSession \<le> 0"
    by (simp add: completedSession_def ops)
  have m: "1 \<le> initialMinutes (hostConfig 1 False)"
    by (simp add: hostConfig_def)
  have g1: "guarded (hostConfig 1 False) 0 (init (hostConfig 1 False)) [Start 0, Pause 1000, Stop]"
    by (simp add: ops)
  have s1: "state (run (hostConfig 1 False) [Start 0, Pause 1000, Stop] (init (hostConfig 1 False))) = READY"
    by (simp add: ops)
  have g2: "guarded (hostConfig 1 False) 0 (init (hostConfig 1 False)) [Start 0, Tick 60000 (1, 60)]"
    by (simp add: ops)
  have s2: "state (run (hostConfig 1 False) [Start 0, Tick 60000 (1, 60)] (init (hostConfig 1 False))) = COMPLETED"
    by (simp add: ops)
  from guarded_transitions [of "init (hostConfig 15 False)" 5 "hostConfig 1 False" 0 "[Start 0, Pause 1000, Stop]" 5] i m g1 s1
  have a: "pause 5 (init (hostConfig 15 False)) = init (hostConfig 15 False) \<and>
      stop (init (hostConfig 15 False)) = init (hostConfig 15 False) \<and>
      reset (init (hostConfig 15 False)) = init (hostConfig 15 False) \<and>
      stop (run (hostConfig 1 False) [Start 0, Pause 1000, Stop] (init (hostConfig 1 False)))
        = run (hostConfig 1 False) [Start 0, Pause 1000, Stop] (init (hostConfig 1 False))"
    by blast
  from guarded_transitions [of pausedSession 5] p
  have b: "pause 5 pausedSession = pausedSession"
    by blast
  from guarded_transitions [of completedSession 5 "hostConfig 1 False" 0 "[Start 0, Tick 60000 (1, 60)]" 5] c m g2 s2
  have d: "pause 5 completedSession = completedSession \<and>
      start 5 completedSession = completedSession \<and> readyAtRest (stop completedSession)"
    by blast
  from guarded_transitions [of completedSession 70000 "hostConfig 1 False" 0 "[Start 0, Tick 60000 (1, 60)]" 5] m g2 s2
  have f: "start 70000 (run (hostConfig 1 False) [Start 0, Tick 60000 (1, 60)] (init (hostConfig 1 False)))
     = run (hostConfig 1 False) [Start 0, Tick 60000 (1, 60)] (init (hostConfig 1 False))"
    by blast
  from a b d f g1 s1 g2 s2 show ?thesis by blast
qed

text \<open>
  Counterexample to C2 as stated: \<open>stop\<close> on the completed one-minute session moves it to
  READY with 60 seconds remaining; \<open>start\<close> at clock reading 5000 on the running session
  moves the start anchor from 0 to 5000 and schedules a second interval timer.
\<close>

theorem guarded_transitions_counterexample:
  "state completedSession = COMPLETED \<and> remainingTime completedSession = 0 \<and>
   state (stop completedSession) = READY \<and> remainingTime (stop completedSession) = 60 \<and>
   state runningSession = RUNNING \<and> startTimeRef runningSession = 0 \<and>
   intervals runningSession = [(1, 900)] \<and>
   startTimeRef (start 5000 runningSession) = 5000 \<and>
   intervals (start 5000 runningSession) = [(1, 900), (2, 900)]"
  by (simp add: completedSession_def runningSession_def ops)

subsection \<open>Evaluations of timers that are not scheduled\<close>

lemma evaluations_Nil [simp]: "evaluations [] = []"
  by (simp add: evaluations_def)

lemma evaluations_Cons [simp]: "evaluations (tk # tks) = Tick (fst tk) (snd tk) # evaluations tks"
  by (simp add: evaluations_def)



subsection \<open>Pause and resume\<close>





subsection \<open>Completion\<close>








subsection \<open>The bounded-remaining invariant\<close>

text \<open>
  Claim C3, as the code has it. For every configuration with \<open>initialMinutes \<ge> 1\<close> and every
  guarded run from the initial engine (any sequence of \<open>start\<close>, \<open>pause\<close>, \<open>stop\<close>, \<open>reset\<close>,
  \<open>setDuration\<close> with any argument, evaluations of any timer and auto-reset firings, in which
  \<open>start\<close> is not called while RUNNING, the clock readings do not decrease and an auto-reset
  fires while the engine is still COMPLETED), \<open>0 \<le> remainingTime \<le> totalDuration\<close> holds after
  each step.
\<close>

theorem remaining_bounded_in_guarded_runs:
  assumes "1 \<le> initialMinutes cfg" "guarded cfg t (init cfg) evs" "n \<le> length evs"
  shows "0 \<le> remainingTime (run cfg (take n evs) (init cfg)) \<and>
         remainingTime (run cfg (take n evs) (init cfg)) \<le> totalDuration (run cfg (take n evs) (init cfg))"
proof -
  have "guarded cfg t (init cfg) (take n evs)" using assms(2) by (rule guarded_take)
  with engine_inv_init [OF assms(1)]
  obtain t' where "engine_inv cfg t' (run cfg (take n evs) (init cfg))"
    using engine_inv_run by blast
  then show ?thesis by (simp add: engine_inv_def)
qed

text \<open>
  Witness for C3: a guarded run of eleven events with clamped durations, a pause and resume,
  a completion and its auto-reset; after seven events 30 of 60 seconds remain.
\<close>

theorem remaining_bounded_in_guarded_runs_witness:
  "guarded (hostConfig 1 True) 0 (init (hostConfig 1 True))
     [SetDuration 1000, SetDuration 1, Start 0, Tick 500 (1, 60), Pause 1000, Start 6000,
      Tick 35000 (2, 60), Tick 65000 (2, 60), AutoReset 0, Start 70000, Stop] \<and>
   remainingTime (run (hostConfig 1 True)
     [SetDuration 1000, SetDuration 1, Start 0, Tick 500 (1, 60), Pause 1000, Start 6000,
      Tick 35000 (2, 60)] (init (hostConfig 1 True))) = 30 \<and>
   totalDuration (run (hostConfig 1 True)
     [SetDuration 1000, SetDuration 1, Start 0, Tick 500 (1, 60), Pause 1000, Start 6000,
      Tick 35000 (2, 60)] (init (hostConfig 1 True))) = 60"
proof -
  have g: "guarded (hostConfig 1 True) 0 (init (hostConfig 1 True))
     [SetDuration 1000, SetDuration 1, Start 0, Tick 500 (1, 60), Pause 1000, Start 6000,
      Tick 35000 (2, 60), Tick 65000 (2, 60), AutoReset 0, Start 70000, Stop]"
    by (simp add: ops)
  have r: "remainingTime (run (hostConfig 1 True)
     [SetDuration 1000, SetDuration 1, Start 0, Tick 500 (1, 60), Pause 1000, Start 6000,
      Tick 35000 (2, 60)] (init (hostConfig 1 True))) = 30 \<and>
   totalDuration (run (hostConfig 1 True)
     [SetDuration 1000, SetDuration 1, Start 0, Tick 500 (1, 60), Pause 1000, Start 6000,
      Tick 35000 (2, 60)] (init (hostConfig 1 True))) = 60"
    by (simp add: ops)
  have i: "1 \<le> initialMinutes (hostConfig 1 True)" by (simp add: hostConfig_def)
  from remaining_bounded_in_guarded_runs [OF i g, of 7] g r show ?thesis by simp
qed

text \<open>
  Counterexample to C3 as stated. An evaluation that reads a clock set back by ten seconds
  leaves 70 seconds remaining of a 60-second session. After \<open>start\<close>, \<open>start\<close>, \<open>stop\<close>,
  \<open>setDuration(1)\<close> the timer of the first \<open>start\<close> is still scheduled, and its evaluation
  leaves 899 seconds remaining of a 60-second session.
\<close>

theorem remaining_bounded_counterexample:
  "remainingTime clockSetBack = 70 \<and> totalDuration clockSetBack = 60 \<and>
   \<not> remainingTime clockSetBack \<le> totalDuration clockSetBack \<and>
   remainingTime doubleStart = 899 \<and> totalDuration doubleStart = 60 \<and>
   \<not> remainingTime doubleStart \<le> totalDuration doubleStart"
  by (simp add: clockSetBack_def doubleStart_def ops)

subsection \<open>RUNNING and READY states of guarded runs\<close>

text \<open>
  In guarded runs a RUNNING session has time left and the timer whose handle the hook holds
  is the only one scheduled, as the pause and resume theorem assumes.
\<close>

lemma running_in_guarded_runs:
  assumes "1 \<le> initialMinutes cfg" "guarded cfg t (init cfg) evs"
    and "state (run cfg evs (init cfg)) = RUNNING"
  shows "0 < remainingTime (run cfg evs (init cfg)) \<and>
         (\<exists>h. intervalRef (run cfg evs (init cfg)) = Some h \<and>
              list_all (\<lambda>iv. fst iv = h) (intervals (run cfg evs (init cfg))))"
proof -
  from engine_inv_init [OF assms(1)] assms(2)
  obtain t' where "engine_inv cfg t' (run cfg evs (init cfg))"
    using engine_inv_run by blast
  with assms(3) show ?thesis by (auto simp: engine_inv_def split: option.splits)
qed

text \<open>
  In guarded runs every READY state is at rest with no timer scheduled: nothing is banked.
\<close>

lemma ready_offset_zero_in_guarded_runs:
  assumes "1 \<le> initialMinutes cfg" "guarded cfg t (init cfg) evs"
    and "state (run cfg evs (init cfg)) = READY"
  shows "readyAtRest (run cfg evs (init cfg)) \<and> intervals (run cfg evs (init cfg)) = []"
proof -
  from engine_inv_init [OF assms(1)] assms(2)
  obtain t' where "engine_inv cfg t' (run cfg evs (init cfg))"
    using engine_inv_run by blast
  with assms(3) show ?thesis by (simp add: engine_inv_def readyAtRest_def)
qed

text \<open>
  Claim C10 fails on the code. With auto-reset configured, a one-minute session completes at
  60000; before the delayed callback runs at 61000 the user resets, starts at 60100 and
  pauses at 60600. The callback then sets the state to READY without clearing the banked
  offset: the engine is READY with \<open>pausedTimeRef = 500\<close>. The next \<open>start\<close> at 61500 anchors the
  start timestamp at 61000, and the one-minute session completes at 121000, after 59.5
  seconds.
\<close>

theorem autoReset_race_keeps_banked_offset:
  "state autoResetRace = READY \<and> pausedTimeRef autoResetRace = 500 \<and>
   remainingTime autoResetRace = totalDuration autoResetRace \<and>
   startTimeRef (start 61500 autoResetRace) = 61000 \<and>
   state (tick (hostConfig 1 True) 121000 (3, 60) (start 61500 autoResetRace)) = COMPLETED"
  by (simp add: autoResetRace_def ops)

end
